theory Spec2Isabelle
  imports Complex_Main "HOL-Library.Word"
begin

section \<open>Elmor Labs KTH USB thermometer: serial polling, decoding, buffering\<close>

text \<open>
  A shallow embedding of \<^verbatim>\<open>main.py\<close>: the handshake \<^verbatim>\<open>check_connection\<close>, the
  collector \<^verbatim>\<open>get_new_sensor_values\<close>, the buffer update at the head of
  \<^verbatim>\<open>animation_update\<close> and the start-up code under \<^verbatim>\<open>__main__\<close>.
  The serial device, the wall clock and the file system are the environment: the device
  and the clock are oracles, the serial traffic is recorded as a trace of events and the
  CSV file is a list of lines. The device answers every read, with as many bytes as it
  likes; a port that cannot be opened or that fails is outside the model. Drawing (pivot
  and plot calls) reads the buffer only and is left out.
\<close>

subsection \<open>Python numbers: \<^verbatim>\<open>int\<close>, and \<^verbatim>\<open>float\<close> as the rational it denotes\<close>

type_synonym byte = "8 word"

text \<open>
  A Python \<^verbatim>\<open>float\<close> is a binary64 number. It is modelled by the rational it denotes;
  an arithmetic result is the exact result rounded to 53 significant bits, ties to even.
  Overflow, subnormals and signed zeros are not modelled: the numbers of this program are
  products of an integer of at most four bytes with 0.1.
\<close>

datatype pynum = PyInt int | PyFloat rat

definition pow2 :: "int \<Rightarrow> rat" where
  "pow2 k = (if 0 \<le> k then 2 ^ nat k else 1 / 2 ^ nat (- k))"

function bitlength :: "int \<Rightarrow> nat" where
  "bitlength n = (if n \<le> 0 then 0 else Suc (bitlength (n div 2)))"
  by pat_completeness auto
termination
  by (relation "measure nat") auto

declare bitlength.simps [simp del]

definition ilog2 :: "rat \<Rightarrow> int" where
  \<comment> \<open>the exponent \<open>e\<close> with \<open>2^e \<le> a < 2^(e+1)\<close>, for \<open>a > 0\<close>\<close>
  "ilog2 a =
     (let (p, q) = quotient_of a;
          e0 = int (bitlength p) - int (bitlength q)
      in if pow2 e0 \<le> a then e0 else e0 - 1)"

definition round_half_even :: "rat \<Rightarrow> int" where
  "round_half_even q =
     (let m = \<lfloor>q\<rfloor>; r = q - of_int m
      in if r < 1 / 2 then m
         else if 1 / 2 < r then m + 1
         else if even m then m else m + 1)"

definition fl_round :: "rat \<Rightarrow> rat" where
  "fl_round x =
     (if x = 0 then 0
      else let a = \<bar>x\<bar>; e = ilog2 a - 52;
               m = round_half_even (a / pow2 e)
           in sgn x * of_int m * pow2 e)"

definition py_float :: "pynum \<Rightarrow> rat" where
  \<comment> \<open>\<^verbatim>\<open>float(x)\<close>\<close>
  "py_float x = (case x of PyInt i \<Rightarrow> fl_round (of_int i) | PyFloat f \<Rightarrow> f)"

definition py_mul :: "pynum \<Rightarrow> pynum \<Rightarrow> pynum" where
  \<comment> \<open>Python's \<^verbatim>\<open>*\<close>: exact on two ints, a float product as soon as one side is a float\<close>
  "py_mul x y =
     (case (x, y) of
        (PyInt a, PyInt b) \<Rightarrow> PyInt (a * b)
      | _ \<Rightarrow> PyFloat (fl_round (py_float x * py_float y)))"

definition pynum_val :: "pynum \<Rightarrow> rat" where
  "pynum_val x = (case x of PyInt i \<Rightarrow> of_int i | PyFloat f \<Rightarrow> f)"

definition float_literal :: "rat \<Rightarrow> pynum" where
  \<comment> \<open>a decimal literal such as \<^verbatim>\<open>0.1\<close> denotes the nearest binary64 number\<close>
  "float_literal r = PyFloat (fl_round r)"

subsection \<open>\<^verbatim>\<open>int.from_bytes(bs, byteorder='little', signed=...)\<close>\<close>

fun le_unsigned :: "byte list \<Rightarrow> int" where
  "le_unsigned [] = 0"
| "le_unsigned (b # bs) = uint b + 256 * le_unsigned bs"

text \<open>
  The encoding the decoder is measured against, \<^verbatim>\<open>v.to_bytes(n, 'little', signed=...)\<close>:
  \<open>n\<close> bytes, least significant first, two's complement for a negative \<open>v\<close>. Python
  accepts exactly the \<open>v\<close> of \<open>in_range\<close>.
\<close>

fun le_encode :: "nat \<Rightarrow> int \<Rightarrow> byte list" where
  "le_encode 0 v = []"
| "le_encode (Suc n) v = word_of_int v # le_encode n (v div 256)"

definition in_range :: "bool \<Rightarrow> nat \<Rightarrow> int \<Rightarrow> bool" where
  "in_range signd n v =
     (if signd then - (2 ^ (8 * n)) \<le> 2 * v \<and> 2 * v < 2 ^ (8 * n)
      else 0 \<le> v \<and> v < 2 ^ (8 * n))"

definition int_from_bytes :: "byte list \<Rightarrow> bool \<Rightarrow> int" where
  "int_from_bytes bs signd =
     (let u = le_unsigned bs; n = length bs
      in if signd \<and> 0 < n \<and> 2 ^ (8 * n - 1) \<le> u then u - 2 ^ (8 * n) else u)"

subsection \<open>The environment: serial device, clock, file\<close>

datatype error = AssertionError | KeyError | NaNLabel

record serial_settings =
  port :: string
  baudrate :: nat
  bytesize :: nat
  stopbits :: nat
  timeout :: nat

definition kth_settings :: serial_settings where
  "kth_settings = \<lparr>port = ''COM9'', baudrate = 9600, bytesize = 8, stopbits = 1, timeout = 1\<rparr>"

record config =
  list_all_windows_ports :: bool
  save_to_csv :: bool
  max_length :: nat

definition default_config :: config where
  \<comment> \<open>the module-level settings as the source has them\<close>
  "default_config = \<lparr>list_all_windows_ports = True, save_to_csv = True, max_length = 500\<rparr>"

record row =
  timestamp :: int
  sensor_id :: string
  unit :: string
  "value" :: pynum

datatype csv_line = HeaderLine "string list" | DataLine row

datatype event =
    Open serial_settings
  | Write "byte list"
  | Flush
  | Read nat "byte list"
  | Close
  | Print string "byte list"
  | ListPorts

text \<open>
  The world: the serial and console events so far, oldest first; the contents of
  \<^verbatim>\<open>temperature_measurements.csv\<close> (\<open>None\<close> while the file does not exist); the
  number of reads answered so far; the bytes written since the last read.
\<close>

record world =
  trace :: "event list"
  csv :: "csv_line list option"
  reads :: nat
  pending :: "byte list"

text \<open>
  The environment's oracles: what the device has made available when the \<open>k\<close>-th read
  of the run returns, given the bytes written since the previous read; and the wall clock
  at that moment.
\<close>

record env =
  device :: "nat \<Rightarrow> byte list \<Rightarrow> byte list"
  today :: "nat \<Rightarrow> int"

definition emit :: "event \<Rightarrow> world \<Rightarrow> world" where
  "emit e w = w\<lparr>trace := trace w @ [e]\<rparr>"

definition ser_open :: "world \<Rightarrow> world" where
  \<comment> \<open>\<^verbatim>\<open>with serial.Serial(**kth_settings) as ser\<close>, entering: a new port, nothing written yet\<close>
  "ser_open w = emit (Open kth_settings) (w\<lparr>pending := []\<rparr>)"

definition ser_close :: "world \<Rightarrow> world" where
  \<comment> \<open>leaving the \<^verbatim>\<open>with\<close> block, normally or by an exception\<close>
  "ser_close w = emit Close w"

definition ser_write :: "byte list \<Rightarrow> world \<Rightarrow> world" where
  "ser_write bs w = emit (Write bs) (w\<lparr>pending := pending w @ bs\<rparr>)"

definition ser_flush :: "world \<Rightarrow> world" where
  "ser_flush w = emit Flush w"

definition ser_read :: "env \<Rightarrow> nat \<Rightarrow> world \<Rightarrow> byte list \<times> world" where
  \<comment> \<open>\<^verbatim>\<open>ser.read(n)\<close> returns at most \<open>n\<close> bytes, fewer when the timeout elapses\<close>
  "ser_read e n w =
     (let bs = take n (device e (reads w) (pending w))
      in (bs, emit (Read n bs) (w\<lparr>reads := Suc (reads w), pending := []\<rparr>)))"

definition py_print :: "string \<Rightarrow> byte list \<Rightarrow> world \<Rightarrow> world" where
  "py_print label bs w = emit (Print label bs) w"

subsection \<open>\<^verbatim>\<open>check_connection\<close>\<close>

text \<open>
  The \<^verbatim>\<open>assert\<close> is taken as executed (the interpreter runs without \<^verbatim>\<open>-O\<close>); the
  \<^verbatim>\<open>with\<close> block closes the port on the way out of the failed assertion as well.
\<close>

definition check_connection :: "env \<Rightarrow> world \<Rightarrow> (error + unit) \<times> world" where
  "check_connection e w0 =
     (let w = ser_open w0;
          w = ser_write [0x00] w;
          w = ser_flush w;
          (read_bytes, w) = ser_read e 100 w;
          w = py_print [] read_bytes w;
          w = ser_write [0x01] w;
          w = ser_flush w;
          (read_bytes, w) = ser_read e 100 w;
          w = py_print ''Device ID: '' read_bytes w
      in if read_bytes \<noteq> [0x0d, 0xee] then (Inl AssertionError, ser_close w)
         else
           let w = ser_write [0x02] w;
               w = ser_flush w;
               (read_bytes, w) = ser_read e 100 w;
               w = py_print ''Unique ID: '' read_bytes w;
               w = ser_write [0x03] w;
               w = ser_flush w;
               (read_bytes, w) = ser_read e 100 w;
               w = py_print ''Firmware version: '' read_bytes w
           in (Inr (), ser_close w))"

subsection \<open>\<^verbatim>\<open>get_new_sensor_values\<close>\<close>

text \<open>
  A DataFrame is its rows in order, each with its index label. The labels of this program
  are positions of a fresh range index and successors of labels, so they are naturals.
  Column \<^verbatim>\<open>id\<close> is the field \<open>sensor_id\<close>. Column \<^verbatim>\<open>value\<close> holds the number
  \<^verbatim>\<open>result\<close> of line 95; pandas keeps the column as binary64, which holds the integers
  of this program (at most four bytes) unchanged.
\<close>

type_synonym dataframe = "(nat \<times> row) list"

type_synonym comm_spec = "byte list \<times> nat \<times> pynum \<times> string \<times> bool"

definition communication_specs :: "(string \<times> comm_spec) list" where
  \<comment> \<open>a dict literal: iteration is in the order written\<close>
  "communication_specs =
     [(''TC1'', ([0x10], 2, float_literal (1 / 10), ''T'', True)),
      (''TC2'', ([0x11], 2, float_literal (1 / 10), ''T'', True)),
      (''VDD'', ([0x12], 4, PyInt 1, ''uV'', True)),
      (''TH1'', ([0x14], 2, PyInt 1, ''ADC value'', False)),
      (''TH2'', ([0x15], 2, PyInt 1, ''ADC value'', False))]"

definition df_concat_ignore_index :: "dataframe \<Rightarrow> row list \<Rightarrow> dataframe" where
  \<comment> \<open>\<^verbatim>\<open>pd.concat([df, rows], ignore_index=True)\<close>: the rows of both, relabelled 0, 1, ...\<close>
  "df_concat_ignore_index df rs = enumerate 0 (map snd df @ rs)"

definition convert :: "byte list \<Rightarrow> nat \<Rightarrow> pynum \<Rightarrow> bool \<Rightarrow> pynum" where
  \<comment> \<open>\<^verbatim>\<open>int.from_bytes(read_bytes[0:nr_of_bytes], byteorder='little', signed=signed) * multiplier\<close>\<close>
  "convert read_bytes nr_of_bytes multiplier signd =
     py_mul (PyInt (int_from_bytes (take nr_of_bytes read_bytes) signd)) multiplier"

definition sensor_step :: "env \<Rightarrow> string \<times> comm_spec \<Rightarrow> dataframe \<times> world \<Rightarrow> dataframe \<times> world" where
  \<comment> \<open>one pass through the body of the \<^verbatim>\<open>for\<close> loop\<close>
  "sensor_step e entry st =
     (case (entry, st) of
        ((name, (command, nr_of_bytes, multiplier, unit_label, signd)), (df, w)) \<Rightarrow>
          let ts = today e (reads w);
              w = ser_write command w;
              w = ser_flush w;
              (read_bytes, w) = ser_read e nr_of_bytes w;
              result = convert read_bytes nr_of_bytes multiplier signd;
              r = \<lparr>timestamp = ts, sensor_id = name, unit = unit_label, value = result\<rparr>
          in (df_concat_ignore_index df [r], w))"

definition sensor_row :: "env \<Rightarrow> nat \<Rightarrow> string \<times> comm_spec \<Rightarrow> row" where
  \<comment> \<open>the row the loop body builds for a table entry on a fresh connection after \<open>k\<close> reads\<close>
  "sensor_row e k entry =
     (case entry of (name, (command, nr_of_bytes, multiplier, unit_label, signd)) \<Rightarrow>
        \<lparr>timestamp = today e k, sensor_id = name, unit = unit_label,
         value = convert (take nr_of_bytes (device e k command)) nr_of_bytes multiplier signd\<rparr>)"

definition csv_lines :: "world \<Rightarrow> csv_line list" where
  "csv_lines w = (case csv w of None \<Rightarrow> [] | Some ls \<Rightarrow> ls)"

definition to_csv_append :: "dataframe \<Rightarrow> world \<Rightarrow> world" where
  \<comment> \<open>\<^verbatim>\<open>df.to_csv(file, mode='a', header=False, index=False)\<close>\<close>
  "to_csv_append df w = w\<lparr>csv := Some (csv_lines w @ map (DataLine \<circ> snd) df)\<rparr>"

definition header :: csv_line where
  "header = HeaderLine [''timestamp'', ''id'', ''unit'', ''value'']"

definition to_csv_write :: "dataframe \<Rightarrow> world \<Rightarrow> world" where
  \<comment> \<open>\<^verbatim>\<open>df.to_csv(file, index=False)\<close>: mode \<^verbatim>\<open>'w'\<close>, with the header\<close>
  "to_csv_write df w =
     w\<lparr>csv := Some (header # map (DataLine \<circ> snd) df)\<rparr>"

definition get_new_sensor_values :: "bool \<Rightarrow> env \<Rightarrow> world \<Rightarrow> dataframe \<times> world" where
  "get_new_sensor_values save e w0 =
     (let w = ser_open w0;
          (df, w) = fold (sensor_step e) communication_specs ([], w);
          w = ser_close w;
          w = (if save then to_csv_append df w else w)
      in (df, w))"

subsection \<open>The buffer update of \<^verbatim>\<open>animation_update\<close>\<close>

definition df_index_max :: "dataframe \<Rightarrow> nat option" where
  \<comment> \<open>\<^verbatim>\<open>df.index.max()\<close>; of an empty index it is NaN, here \<open>None\<close>\<close>
  "df_index_max df = (if df = [] then None else Some (Max (set (map fst df))))"

definition df_index_min :: "dataframe \<Rightarrow> nat option" where
  "df_index_min df = (if df = [] then None else Some (Min (set (map fst df))))"

definition df_loc_set :: "dataframe \<Rightarrow> nat \<Rightarrow> row \<Rightarrow> dataframe" where
  \<comment> \<open>\<^verbatim>\<open>df.loc[label] = r\<close>: overwrite the rows of that label, or add a row at the end\<close>
  "df_loc_set df label r =
     (if label \<in> set (map fst df)
      then map (\<lambda>(l, x). if l = label then (l, r) else (l, x)) df
      else df @ [(label, r)])"

definition df_drop :: "dataframe \<Rightarrow> nat \<Rightarrow> error + dataframe" where
  \<comment> \<open>\<^verbatim>\<open>df.drop(label, inplace=True)\<close>: every row of that label goes; KeyError if none\<close>
  "df_drop df label =
     (if label \<in> set (map fst df) then Inr (filter (\<lambda>(l, x). l \<noteq> label) df)
      else Inl KeyError)"

text \<open>
  \<^verbatim>\<open>for _, row in df_new_data.iterrows(): df.loc[df.index.max()+1] = row\<close>.
  On an empty buffer the label would be NaN + 1; the model stops there with \<open>NaNLabel\<close>.
\<close>

fun append_rows :: "dataframe \<Rightarrow> dataframe \<Rightarrow> error + dataframe" where
  "append_rows df [] = Inr df"
| "append_rows df ((l, r) # rest) =
     (case df_index_max df of
        None \<Rightarrow> Inl NaNLabel
      | Some m \<Rightarrow> append_rows (df_loc_set df (m + 1) r) rest)"

text \<open>\<^verbatim>\<open>for _ in range(k): df.drop(df.index.min(), inplace=True)\<close>\<close>

fun drop_oldest :: "nat \<Rightarrow> dataframe \<Rightarrow> error + dataframe" where
  "drop_oldest 0 df = Inr df"
| "drop_oldest (Suc k) df =
     (case df_index_min df of
        None \<Rightarrow> Inl KeyError
      | Some m \<Rightarrow> (case df_drop df m of Inl err \<Rightarrow> Inl err | Inr df' \<Rightarrow> drop_oldest k df'))"

definition ingest :: "nat \<Rightarrow> dataframe \<Rightarrow> dataframe \<Rightarrow> error + dataframe" where
  \<comment> \<open>lines 115 to 122: append the new rows, then drop the oldest if over the cap\<close>
  "ingest cap df df_new_data =
     (case append_rows df df_new_data of
        Inl err \<Rightarrow> Inl err
      | Inr df1 \<Rightarrow>
          if cap < length df1 then drop_oldest (length df_new_data) df1 else Inr df1)"

definition animation_update :: "config \<Rightarrow> env \<Rightarrow> dataframe \<Rightarrow> world \<Rightarrow> (error + dataframe) \<times> world" where
  "animation_update cfg e df w0 =
     (let (df_new_data, w) = get_new_sensor_values (save_to_csv cfg) e w0
      in (ingest (max_length cfg) df df_new_data, w))"

subsection \<open>The main program\<close>

definition startup :: "config \<Rightarrow> env \<Rightarrow> world \<Rightarrow> (error + dataframe) \<times> world" where
  \<comment> \<open>from the port listing to the first batch and its file, before the animation starts\<close>
  "startup cfg e w0 =
     (let w = (if list_all_windows_ports cfg then emit ListPorts w0 else w0);
          (res, w) = check_connection e w
      in case res of
           Inl err \<Rightarrow> (Inl err, w)
         | Inr u \<Rightarrow>
             let (df, w) = get_new_sensor_values False e w;
                 w = (if save_to_csv cfg then to_csv_write df w else w)
             in (Inr df, w))"

text \<open>
  \<^verbatim>\<open>FuncAnimation\<close> calls \<^verbatim>\<open>animation_update\<close> on the same \<^verbatim>\<open>df\<close> at every timer tick
  until the window is closed: \<open>n\<close> is the number of ticks that happen. An exception ends
  the run.
\<close>

fun animate :: "config \<Rightarrow> env \<Rightarrow> nat \<Rightarrow> dataframe \<Rightarrow> world \<Rightarrow> (error + dataframe) \<times> world" where
  "animate cfg e 0 df w = (Inr df, w)"
| "animate cfg e (Suc n) df w =
     (case animation_update cfg e df w of
        (Inl err, w') \<Rightarrow> (Inl err, w')
      | (Inr df', w') \<Rightarrow> animate cfg e n df' w')"

definition main :: "config \<Rightarrow> env \<Rightarrow> nat \<Rightarrow> world \<Rightarrow> (error + dataframe) \<times> world" where
  "main cfg e n w0 =
     (case startup cfg e w0 of
        (Inl err, w) \<Rightarrow> (Inl err, w)
      | (Inr df, w) \<Rightarrow> animate cfg e n df w)"

subsection \<open>Vocabulary of the properties\<close>

text \<open>What one collection cycle reads and does, when \<open>k\<close> reads were answered before it.\<close>

definition cycle_rows :: "env \<Rightarrow> nat \<Rightarrow> row list" where
  "cycle_rows e k =
     map (\<lambda>(i, entry). sensor_row e (k + i) entry) (enumerate 0 communication_specs)"

definition cycle_events :: "env \<Rightarrow> nat \<Rightarrow> event list" where
  "cycle_events e k =
     concat (map (\<lambda>(i, (name, (command, n, m, u, s))).
                    [Write command, Flush, Read n (take n (device e (k + i) command))])
                 (enumerate 0 communication_specs))"

text \<open>What a probe of the handshake reads: at most 100 bytes of the device's answer.\<close>

definition probe :: "env \<Rightarrow> nat \<Rightarrow> byte \<Rightarrow> byte list" where
  "probe e k c = take 100 (device e k [c])"

definition device_id_response :: "env \<Rightarrow> world \<Rightarrow> byte list" where
  \<comment> \<open>the answer to the second probe of a handshake started in \<open>w\<close>\<close>
  "device_id_response e w = probe e (Suc (reads w)) 0x01"

text \<open>The events a step added, the commands written among them, the connection events.\<close>

definition new_events :: "world \<Rightarrow> world \<Rightarrow> event list" where
  "new_events w w' = drop (length (trace w)) (trace w')"

fun written :: "event list \<Rightarrow> byte list list" where
  "written [] = []"
| "written (Write bs # tr) = bs # written tr"
| "written (ev # tr) = written tr"

fun read_sizes :: "event list \<Rightarrow> nat list" where
  "read_sizes [] = []"
| "read_sizes (Read n bs # tr) = n # read_sizes tr"
| "read_sizes (ev # tr) = read_sizes tr"

fun connections :: "event list \<Rightarrow> event list" where
  "connections [] = []"
| "connections (Open st # tr) = Open st # connections tr"
| "connections (Close # tr) = Close # connections tr"
| "connections (ev # tr) = connections tr"

text \<open>
  A trace in which every write is the first one on a connection opened for it: the flag
  says whether the connection at hand has been written to.
\<close>

fun fresh_connection_per_write :: "bool \<Rightarrow> event list \<Rightarrow> bool" where
  "fresh_connection_per_write used [] = True"
| "fresh_connection_per_write used (Open st # tr) = fresh_connection_per_write False tr"
| "fresh_connection_per_write used (Write bs # tr) =
     (if used then False else fresh_connection_per_write True tr)"
| "fresh_connection_per_write used (ev # tr) = fresh_connection_per_write used tr"

text \<open>
  The buffer's index as the program keeps it: at least one row, labels increasing in
  insertion order.
\<close>

definition buffer_ok :: "dataframe \<Rightarrow> bool" where
  "buffer_ok df = (df \<noteq> [] \<and> sorted_wrt (<) (map fst df))"

text \<open>Sample environments: a thermometer, and a device that answers with another id.\<close>

definition empty_world :: world where
  "empty_world = \<lparr>trace = [], csv = None, reads = 0, pending = []\<rparr>"

definition kth_device :: env where
  "kth_device =
     \<lparr>device = (\<lambda>k c. if c = [0x01] then [0x0d, 0xee]
                       else if c = [0x10] then [0x0A, 0x00]
                       else if c = [0x11] then [0xFF]
                       else if c = [0x14] then []
                       else [0xFF, 0xFF, 0xFF, 0xFF]),
      today = (\<lambda>k. 1000 + int k)\<rparr>"

definition other_device :: env where
  "other_device = \<lparr>device = (\<lambda>k c. [0x0d, 0xef]), today = (\<lambda>k. 1000 + int k)\<rparr>"

definition cold_device :: env where
  \<comment> \<open>every answer is four bytes 0xFF\<close>
  "cold_device = \<lparr>device = (\<lambda>k c. [0xFF, 0xFF, 0xFF, 0xFF]), today = (\<lambda>k. 1000 + int k)\<rparr>"

text \<open>The rows of \<open>n\<close> successive collection cycles, the first after \<open>k\<close> reads.\<close>

fun collected :: "env \<Rightarrow> nat \<Rightarrow> nat \<Rightarrow> row list" where
  "collected e k 0 = []"
| "collected e k (Suc n) = cycle_rows e k @ collected e (k + 5) n"

definition sample_row :: "int \<Rightarrow> row" where
  "sample_row t = \<lparr>timestamp = t, sensor_id = ''TC1'', unit = ''T'', value = PyInt t\<rparr>"

definition three_rows :: dataframe where
  "three_rows = [(0, sample_row 0), (1, sample_row 1), (2, sample_row 2)]"

text \<open>
  Two runs of the program on the thermometer, one timer tick each; the second starts in
  the world the first one left.
\<close>

definition first_run :: world where
  "first_run = snd (main default_config kth_device 1 empty_world)"

definition second_run :: world where
  "second_run = snd (main default_config kth_device 1 first_run)"

section \<open>Properties\<close>

subsection \<open>The float model on known values\<close>

text \<open>
  The literal \<^verbatim>\<open>0.1\<close>, the product \<^verbatim>\<open>3 * 0.1\<close> (0.30000000000000004 in Python), ties
  at the 54th bit, and integers of the size this program reads.
\<close>

lemma tenth_is_binary64: "fl_round (1 / 10) = 3602879701896397 / 2 ^ 55"
  by code_simp

lemma three_tenths_rounds_up:
  "py_mul (PyInt 3) (float_literal (1 / 10)) = PyFloat (5404319552844596 / 2 ^ 54)"
  by code_simp

lemma ties_go_to_even:
  "fl_round (2 ^ 53 + 1) = 2 ^ 53" "fl_round (2 ^ 53 + 3) = 2 ^ 53 + 4"
  by code_simp+

lemma small_ints_are_floats: "fl_round 65535 = 65535" "fl_round (- 2147483648) = - 2147483648"
  by code_simp+

subsection \<open>Decoding\<close>

lemma length_le_encode: "length (le_encode n v) = n"
  by (induction n arbitrary: v) auto

lemma le_unsigned_le_encode: "le_unsigned (le_encode n v) = v mod 2 ^ (8 * n)"
proof (induction n arbitrary: v)
  case 0
  show ?case by simp
next
  case (Suc n)
  have "uint (word_of_int v :: byte) = v mod 256"
    by (simp add: uint_word_of_int take_bit_eq_mod)
  moreover have "v mod (256 * 2 ^ (8 * n)) = 256 * (v div 256 mod 2 ^ (8 * n)) + v mod 256"
    by (rule zmod_zmult2_eq) simp
  moreover have "(2::int) ^ (8 * Suc n) = 256 * 2 ^ (8 * n)"
    by (simp add: power_add)
  ultimately show ?case
    using Suc.IH [of "v div 256"] by simp
qed

lemma le_unsigned_nonneg: "0 \<le> le_unsigned bs"
  by (induction bs) auto

lemma int_from_bytes_le_encode:
  assumes "in_range signd n v"
  shows "int_from_bytes (le_encode n v) signd = v"
proof (cases "signd \<and> 0 < n")
  case False
  show ?thesis
  proof (cases signd)
    case True
    with False assms have "n = 0" "v = 0" by (simp_all add: in_range_def)
    then show ?thesis by (simp add: int_from_bytes_def)
  next
    case False
    with assms have "v mod 2 ^ (8 * n) = v" by (simp add: in_range_def)
    with False show ?thesis
      by (simp add: int_from_bytes_def le_unsigned_le_encode Let_def)
  qed
next
  case True
  have p: "(2::int) ^ (8 * n) = 2 * 2 ^ (8 * n - 1)"
    using True by (simp add: power_eq_if [of _ "8 * n"])
  from True assms have r: "- (2 ^ (8 * n - 1)) \<le> v" "v < 2 ^ (8 * n - 1)"
    by (simp_all add: in_range_def p)
  show ?thesis
  proof (cases "0 \<le> v")
    case True
    with r p have "v mod 2 ^ (8 * n) = v" by simp
    with r \<open>signd \<and> 0 < n\<close> show ?thesis
      by (simp add: int_from_bytes_def length_le_encode le_unsigned_le_encode Let_def)
  next
    case False
    have "(v + 2 ^ (8 * n)) mod 2 ^ (8 * n) = v + 2 ^ (8 * n)"
      using r p False by (intro mod_pos_pos_trivial) auto
    then have "v mod 2 ^ (8 * n) = v + 2 ^ (8 * n)" by simp
    with r p \<open>signd \<and> 0 < n\<close> show ?thesis
      by (simp add: int_from_bytes_def length_le_encode le_unsigned_le_encode Let_def)
  qed
qed

subsection \<open>One collection cycle, one handshake\<close>

lemmas ser_defs = ser_open_def ser_close_def ser_write_def ser_flush_def ser_read_def
  py_print_def emit_def

lemma sensor_step_eq:
  "sensor_step e (name, (command, n, m, u, s)) (df, w) =
     (df_concat_ignore_index df
        [\<lparr>timestamp = today e (reads w), sensor_id = name, unit = u,
          value = convert (take n (device e (reads w) (pending w @ command))) n m s\<rparr>],
      w\<lparr>trace := trace w @
          [Write command, Flush, Read n (take n (device e (reads w) (pending w @ command)))],
        reads := Suc (reads w), pending := []\<rparr>)"
  by (simp add: sensor_step_def ser_defs Let_def)

lemma get_new_sensor_values_eq:
  "get_new_sensor_values save e w =
     (enumerate 0 (cycle_rows e (reads w)),
      w\<lparr>trace := trace w @ [Open kth_settings] @ cycle_events e (reads w) @ [Close],
        reads := reads w + 5, pending := [],
        csv := (if save then Some (csv_lines w @ map DataLine (cycle_rows e (reads w)))
                else csv w)\<rparr>)"
  by (simp add: get_new_sensor_values_def communication_specs_def sensor_step_eq cycle_rows_def
      cycle_events_def sensor_row_def df_concat_ignore_index_def ser_open_def ser_close_def
      emit_def to_csv_append_def csv_lines_def Let_def)

lemma length_cycle_rows: "length (cycle_rows e k) = 5"
  by (simp add: cycle_rows_def communication_specs_def)

lemma check_connection_fail:
  assumes "device_id_response e w \<noteq> [0x0d, 0xee]"
  shows "check_connection e w =
     (Inl AssertionError,
      w\<lparr>trace := trace w @
         [Open kth_settings,
          Write [0x00], Flush, Read 100 (probe e (reads w) 0x00), Print [] (probe e (reads w) 0x00),
          Write [0x01], Flush, Read 100 (probe e (Suc (reads w)) 0x01),
          Print ''Device ID: '' (probe e (Suc (reads w)) 0x01),
          Close],
        reads := reads w + 2, pending := []\<rparr>)"
  using assms
  by (simp add: check_connection_def device_id_response_def probe_def ser_defs Let_def)

lemma check_connection_pass:
  assumes "device_id_response e w = [0x0d, 0xee]"
  shows "check_connection e w =
     (Inr (),
      w\<lparr>trace := trace w @
         [Open kth_settings,
          Write [0x00], Flush, Read 100 (probe e (reads w) 0x00), Print [] (probe e (reads w) 0x00),
          Write [0x01], Flush, Read 100 (probe e (Suc (reads w)) 0x01),
          Print ''Device ID: '' (probe e (Suc (reads w)) 0x01),
          Write [0x02], Flush, Read 100 (probe e (reads w + 2) 0x02),
          Print ''Unique ID: '' (probe e (reads w + 2) 0x02),
          Write [0x03], Flush, Read 100 (probe e (reads w + 3) 0x03),
          Print ''Firmware version: '' (probe e (reads w + 3) 0x03),
          Close],
        reads := reads w + 4, pending := []\<rparr>)"
  using assms
  by (simp add: check_connection_def device_id_response_def probe_def ser_defs Let_def
      eval_nat_numeral)

subsection \<open>The buffer\<close>

lemma index_max_last:
  assumes "df \<noteq> []" "sorted_wrt (<) (map fst df)"
  shows "df_index_max df = Some (fst (last df))"
proof -
  from assms(1) obtain ys y where df: "df = ys @ [y]" by (metis rev_exhaust)
  have "\<forall>l \<in> set (map fst ys). l < fst y"
    using assms(2) by (auto simp: df sorted_wrt_append)
  then have "Max (set (map fst df)) = fst y"
    by (auto simp: df intro!: Max_eqI dest: less_imp_le)
  then show ?thesis by (simp add: df_index_max_def df)
qed

lemma index_min_hd:
  assumes "df \<noteq> []" "sorted_wrt (<) (map fst df)"
  shows "df_index_min df = Some (fst (hd df))"
proof -
  from assms(1) obtain y ys where df: "df = y # ys" by (cases df) auto
  have "\<forall>l \<in> set (map fst ys). fst y < l"
    using assms(2) by (auto simp: df)
  then have "Min (set (map fst df)) = fst y"
    by (auto simp: df intro!: Min_eqI dest: less_imp_le)
  then show ?thesis by (simp add: df_index_min_def df)
qed

lemma loc_set_fresh:
  assumes "df \<noteq> []" "sorted_wrt (<) (map fst df)"
  shows "df_loc_set df (Suc (fst (last df))) r = df @ [(Suc (fst (last df)), r)]"
    and "sorted_wrt (<) (map fst (df @ [(Suc (fst (last df)), r)]))"
proof -
  from assms(1) obtain ys y where df: "df = ys @ [y]" by (metis rev_exhaust)
  have lt: "\<forall>l \<in> set (map fst ys). l < fst y"
    using assms(2) by (auto simp: df sorted_wrt_append)
  then have "Suc (fst y) \<notin> set (map fst df)"
    by (auto simp: df)
  then show "df_loc_set df (Suc (fst (last df))) r = df @ [(Suc (fst (last df)), r)]"
    by (simp add: df_loc_set_def df)
  show "sorted_wrt (<) (map fst (df @ [(Suc (fst (last df)), r)]))"
    using assms(2) lt by (auto simp: df sorted_wrt_append)
qed

lemma append_rows_ok:
  assumes "df \<noteq> []" "sorted_wrt (<) (map fst df)"
  shows "\<exists>df'. append_rows df new = Inr df' \<and> map snd df' = map snd df @ map snd new
            \<and> sorted_wrt (<) (map fst df') \<and> df' \<noteq> [] \<and> take (length df) df' = df"
  using assms
proof (induction new arbitrary: df)
  case Nil
  then show ?case by simp
next
  case (Cons x new)
  obtain l r where x: "x = (l, r)" by (cases x)
  let ?d = "df @ [(Suc (fst (last df)), r)]"
  have step: "append_rows df (x # new) = append_rows ?d new"
    using Cons.prems by (simp add: x index_max_last loc_set_fresh(1))
  have "?d \<noteq> []" "sorted_wrt (<) (map fst ?d)"
    using Cons.prems loc_set_fresh(2) [of df r] by simp_all
  from Cons.IH [OF this] obtain df' where
    d: "append_rows ?d new = Inr df'" "map snd df' = map snd ?d @ map snd new"
       "sorted_wrt (<) (map fst df')" "df' \<noteq> []" "take (length ?d) df' = ?d"
    by blast
  from d(5) have "take (length df) (take (length ?d) df') = df" by simp
  then have "take (length df) df' = df" by (simp add: min_def)
  with d step x show ?case by simp
qed

lemma drop_min:
  assumes "df \<noteq> []" "sorted_wrt (<) (map fst df)"
  shows "df_drop df (fst (hd df)) = Inr (tl df)"
proof -
  from assms(1) obtain y ys where df: "df = y # ys" by (cases df) auto
  have "\<forall>p \<in> set ys. fst y < fst p"
    using assms(2) by (auto simp: df)
  then have "filter (\<lambda>(l, x). l \<noteq> fst y) ys = ys"
    by (auto simp: filter_id_conv)
  then show ?thesis by (simp add: df_drop_def df case_prod_beta)
qed

lemma drop_oldest_ok:
  assumes "k \<le> length df" "sorted_wrt (<) (map fst df)"
  shows "drop_oldest k df = Inr (drop k df)"
  using assms
proof (induction k arbitrary: df)
  case 0
  show ?case by simp
next
  case (Suc k)
  then obtain y ys where df: "df = y # ys" by (cases df) auto
  have "df \<noteq> []" by (simp add: df)
  from index_min_hd [OF this Suc.prems(2)] drop_min [OF this Suc.prems(2)]
  have "drop_oldest (Suc k) df = drop_oldest k (tl df)"
    by simp
  then have "drop_oldest (Suc k) df = drop_oldest k ys"
    by (simp add: df)
  moreover have "drop_oldest k ys = Inr (drop k ys)"
    using Suc.prems by (intro Suc.IH) (auto simp: df)
  ultimately show ?case by (simp add: df)
qed

lemma sorted_wrt_drop_labels:
  "sorted_wrt (<) (map fst df) \<Longrightarrow> sorted_wrt (<) (map fst (drop k df))"
  by (simp add: sorted_wrt_drop flip: drop_map)

lemma ingest_ok:
  assumes "buffer_ok df"
  shows "\<exists>df'. ingest cap df new = Inr df' \<and> buffer_ok df' \<and>
           map snd df' = (if cap < length df + length new
                          then drop (length new) (map snd df @ map snd new)
                          else map snd df @ map snd new)"
proof -
  from assms have ne: "df \<noteq> []" and so: "sorted_wrt (<) (map fst df)"
    by (simp_all add: buffer_ok_def)
  from append_rows_ok [OF ne so, of new] obtain df1 where
    d: "append_rows df new = Inr df1" "map snd df1 = map snd df @ map snd new"
       "sorted_wrt (<) (map fst df1)" "df1 \<noteq> []"
    by blast
  from d(2) have len: "length df1 = length df + length new"
    by (metis length_append length_map)
  show ?thesis
  proof (cases "cap < length df + length new")
    case False
    with d len show ?thesis by (simp add: ingest_def buffer_ok_def)
  next
    case True
    have "drop_oldest (length new) df1 = Inr (drop (length new) df1)"
      using len d(3) by (intro drop_oldest_ok) simp_all
    moreover have "drop (length new) df1 \<noteq> []" using len ne by simp
    moreover have "map snd (drop (length new) df1) = drop (length new) (map snd df @ map snd new)"
      using d(2) by (simp flip: drop_map)
    ultimately show ?thesis
      using True d len sorted_wrt_drop_labels [OF d(3)]
      by (simp add: ingest_def buffer_ok_def)
  qed
qed

subsection \<open>The collector decodes what the device sends\<close>

lemma cycle_rows_nth:
  "i < length communication_specs \<Longrightarrow>
     cycle_rows e k ! i = sensor_row e (k + i) (communication_specs ! i)"
  by (simp add: cycle_rows_def nth_enumerate_eq)

lemma collected_row:
  assumes "i < length communication_specs"
    and "communication_specs ! i = (name, (command, n, mult, u, signd))"
  shows "snd (fst (get_new_sensor_values save e w) ! i) =
           \<lparr>timestamp = today e (reads w + i), sensor_id = name, unit = u,
            value = convert (take n (device e (reads w + i) command)) n mult signd\<rparr>"
proof -
  have "length (cycle_rows e (reads w)) = length communication_specs"
    by (simp add: cycle_rows_def)
  with assms(1) have "snd (fst (get_new_sensor_values save e w) ! i) = cycle_rows e (reads w) ! i"
    by (simp add: get_new_sensor_values_eq nth_enumerate_eq)
  with assms show ?thesis
    by (simp add: cycle_rows_nth sensor_row_def)
qed

lemma tc1_example: "convert [0x0A, 0x00] 2 (float_literal (1 / 10)) True = PyFloat 1"
  by code_simp

text \<open>
  C1. For every entry of the sensor table: when the device answers that entry's command
  with exactly \<open>width\<close> bytes, the little-endian encoding (two's complement where the
  entry is signed) of an integer \<open>v\<close>, the collector's reading for that entry has the
  value \<open>v * scale\<close>, Python's product. In particular the answer \<open>[0x0A, 0x00]\<close> to
  command \<open>0x10\<close> gives the reading of id TC1, unit T and value 1.0.
\<close>

theorem decode_exact_width:
  "(i < length communication_specs \<and>
    communication_specs ! i = (name, (command, n, mult, u, signd)) \<and>
    in_range signd n v \<and>
    device e (reads w + i) command = le_encode n v \<longrightarrow>
      snd (fst (get_new_sensor_values save e w) ! i) =
        \<lparr>timestamp = today e (reads w + i), sensor_id = name, unit = u,
         value = py_mul (PyInt v) mult\<rparr>) \<and>
   (device e (reads w) [0x10] = [0x0A, 0x00] \<longrightarrow>
      snd (fst (get_new_sensor_values save e w) ! 0) =
        \<lparr>timestamp = today e (reads w), sensor_id = ''TC1'', unit = ''T'',
         value = PyFloat 1\<rparr>)"
proof (intro conjI impI)
  assume a: "i < length communication_specs \<and>
    communication_specs ! i = (name, (command, n, mult, u, signd)) \<and>
    in_range signd n v \<and>
    device e (reads w + i) command = le_encode n v"
  then have "convert (take n (device e (reads w + i) command)) n mult signd = py_mul (PyInt v) mult"
    by (simp add: convert_def length_le_encode int_from_bytes_le_encode)
  with a show "snd (fst (get_new_sensor_values save e w) ! i) =
        \<lparr>timestamp = today e (reads w + i), sensor_id = name, unit = u,
         value = py_mul (PyInt v) mult\<rparr>"
    using collected_row [of i name command n mult u signd save e w] by simp
next
  assume "device e (reads w) [0x10] = [0x0A, 0x00]"
  then show "snd (fst (get_new_sensor_values save e w) ! 0) =
        \<lparr>timestamp = today e (reads w), sensor_id = ''TC1'', unit = ''T'',
         value = PyFloat 1\<rparr>"
    using collected_row [of 0 "''TC1''" "[0x10]" 2 "float_literal (1 / 10)" "''T''" True save e w]
    by (simp add: communication_specs_def tc1_example)
qed

lemma le_encode_vdd: "le_encode 4 (- 1) = [0xFF, 0xFF, 0xFF, 0xFF]"
  by code_simp

theorem decode_exact_width_witness:
  "2 < length communication_specs \<and>
   communication_specs ! 2 = (''VDD'', ([0x12], 4, PyInt 1, ''uV'', True)) \<and>
   in_range True 4 (- 1) \<and>
   device kth_device (reads empty_world + 2) [0x12] = le_encode 4 (- 1) \<and>
   snd (fst (get_new_sensor_values False kth_device empty_world) ! 2) =
     \<lparr>timestamp = 1002, sensor_id = ''VDD'', unit = ''uV'', value = PyInt (- 1)\<rparr> \<and>
   device kth_device (reads empty_world) [0x10] = [0x0A, 0x00] \<and>
   snd (fst (get_new_sensor_values False kth_device empty_world) ! 0) =
     \<lparr>timestamp = 1000, sensor_id = ''TC1'', unit = ''T'', value = PyFloat 1\<rparr>"
proof -
  have h: "2 < length communication_specs \<and>
    communication_specs ! 2 = (''VDD'', ([0x12], 4, PyInt 1, ''uV'', True)) \<and>
    in_range True 4 (- 1) \<and>
    device kth_device (reads empty_world + 2) [0x12] = le_encode 4 (- 1)"
    by (simp add: communication_specs_def in_range_def kth_device_def empty_world_def le_encode_vdd)
  have g: "device kth_device (reads empty_world) [0x10] = [0x0A, 0x00]"
    by (simp add: kth_device_def)
  from decode_exact_width
    [of 2 "''VDD''" "[0x12]" 4 "PyInt 1" "''uV''" True "- 1" kth_device empty_world False] h g
  show ?thesis
    by (simp add: py_mul_def kth_device_def empty_world_def)
qed


lemma int_from_bytes_Nil: "int_from_bytes [] signd = 0"
  by (simp add: int_from_bytes_def)

lemma py_mul_zero: "pynum_val (py_mul (PyInt 0) m) = 0"
  by (cases m) (simp_all add: py_mul_def pynum_val_def py_float_def fl_round_def)

text \<open>
  C4. For every entry of the sensor table and every answer shorter than the entry's width,
  the empty answer included, the collector raises nothing and its reading for that entry
  is the little-endian integer of exactly the bytes received (two's complement where the
  entry is signed) times the entry's scale; the empty answer gives the value 0. The
  collector checks no length: every cycle returns its five readings.
\<close>

theorem short_read_decoded_as_is:
  "(i < length communication_specs \<and>
    communication_specs ! i = (name, (command, n, mult, u, signd)) \<and>
    length (device e (reads w + i) command) < n \<longrightarrow>
      snd (fst (get_new_sensor_values save e w) ! i) =
        \<lparr>timestamp = today e (reads w + i), sensor_id = name, unit = u,
         value = py_mul (PyInt (int_from_bytes (device e (reads w + i) command) signd)) mult\<rparr> \<and>
      (device e (reads w + i) command = [] \<longrightarrow>
         pynum_val (value (snd (fst (get_new_sensor_values save e w) ! i))) = 0)) \<and>
   length (fst (get_new_sensor_values save e w)) = 5"
proof (intro conjI impI)
  assume a: "i < length communication_specs \<and>
    communication_specs ! i = (name, (command, n, mult, u, signd)) \<and>
    length (device e (reads w + i) command) < n"
  then show r: "snd (fst (get_new_sensor_values save e w) ! i) =
        \<lparr>timestamp = today e (reads w + i), sensor_id = name, unit = u,
         value = py_mul (PyInt (int_from_bytes (device e (reads w + i) command) signd)) mult\<rparr>"
    using collected_row [of i name command n mult u signd save e w]
    by (simp add: convert_def)
  assume "device e (reads w + i) command = []"
  with r show "pynum_val (value (snd (fst (get_new_sensor_values save e w) ! i))) = 0"
    by (simp add: int_from_bytes_Nil py_mul_zero)
next
  show "length (fst (get_new_sensor_values save e w)) = 5"
    by (simp add: get_new_sensor_values_eq length_cycle_rows)
qed

lemma zero_times_one: "py_mul (PyInt 0) (PyInt 1) = PyInt 0"
  by (simp add: py_mul_def)

lemma tc2_short: "py_mul (PyInt (int_from_bytes [0xFF] True)) (float_literal (1 / 10)) =
    PyFloat (- (3602879701896397 / 36028797018963968))"
  by code_simp

theorem short_read_decoded_as_is_witness:
  "3 < length communication_specs \<and>
   communication_specs ! 3 = (''TH1'', ([0x14], 2, PyInt 1, ''ADC value'', False)) \<and>
   length (device kth_device (reads empty_world + 3) [0x14]) < 2 \<and>
   device kth_device (reads empty_world + 3) [0x14] = [] \<and>
   snd (fst (get_new_sensor_values True kth_device empty_world) ! 3) =
     \<lparr>timestamp = 1003, sensor_id = ''TH1'', unit = ''ADC value'', value = PyInt 0\<rparr> \<and>
   pynum_val (value (snd (fst (get_new_sensor_values True kth_device empty_world) ! 3))) = 0 \<and>
   communication_specs ! 1 = (''TC2'', ([0x11], 2, float_literal (1 / 10), ''T'', True)) \<and>
   length (device kth_device (reads empty_world + 1) [0x11]) < 2 \<and>
   snd (fst (get_new_sensor_values True kth_device empty_world) ! 1) =
     \<lparr>timestamp = 1001, sensor_id = ''TC2'', unit = ''T'',
      value = PyFloat (- (3602879701896397 / 36028797018963968))\<rparr>"
proof -
  have h3: "3 < length communication_specs \<and>
    communication_specs ! 3 = (''TH1'', ([0x14], 2, PyInt 1, ''ADC value'', False)) \<and>
    length (device kth_device (reads empty_world + 3) [0x14]) < 2"
    by (simp add: communication_specs_def kth_device_def empty_world_def)
  have e3: "device kth_device (reads empty_world + 3) [0x14] = []"
    by (simp add: kth_device_def)
  have h1: "1 < length communication_specs \<and>
    communication_specs ! 1 = (''TC2'', ([0x11], 2, float_literal (1 / 10), ''T'', True)) \<and>
    length (device kth_device (reads empty_world + 1) [0x11]) < 2"
    by (simp add: communication_specs_def kth_device_def empty_world_def)
  have d1: "device kth_device (reads empty_world + 1) [0x11] = [0xFF]"
    by (simp add: kth_device_def)
  from short_read_decoded_as_is
      [of 3 "''TH1''" "[0x14]" 2 "PyInt 1" "''ADC value''" False kth_device empty_world True]
    short_read_decoded_as_is
      [of 1 "''TC2''" "[0x11]" 2 "float_literal (1 / 10)" "''T''" True kth_device empty_world True]
    h3 e3 h1
  show ?thesis
    by (simp add: d1 tc2_short int_from_bytes_Nil zero_times_one pynum_val_def kth_device_def
        empty_world_def)
qed

text \<open>
  C8. Every collection cycle returns exactly five readings, one per table entry, in the
  order TC1, TC2, VDD, TH1, TH2; it writes the command bytes 0x10, 0x11, 0x12, 0x14, 0x15,
  reads 2, 2, 4, 2, 2 bytes, scales by 0.1, 0.1, 1, 1, 1, labels the units T, T, uV,
  ADC value, ADC value, and decodes signed, signed, signed, unsigned, unsigned.
\<close>

theorem five_readings_in_table_order:
  "map snd (fst (get_new_sensor_values save e w)) =
     [\<lparr>timestamp = today e (reads w), sensor_id = ''TC1'', unit = ''T'',
       value = py_mul (PyInt (int_from_bytes (take 2 (device e (reads w) [0x10])) True))
                 (float_literal (1 / 10))\<rparr>,
      \<lparr>timestamp = today e (reads w + 1), sensor_id = ''TC2'', unit = ''T'',
       value = py_mul (PyInt (int_from_bytes (take 2 (device e (reads w + 1) [0x11])) True))
                 (float_literal (1 / 10))\<rparr>,
      \<lparr>timestamp = today e (reads w + 2), sensor_id = ''VDD'', unit = ''uV'',
       value = py_mul (PyInt (int_from_bytes (take 4 (device e (reads w + 2) [0x12])) True))
                 (PyInt 1)\<rparr>,
      \<lparr>timestamp = today e (reads w + 3), sensor_id = ''TH1'', unit = ''ADC value'',
       value = py_mul (PyInt (int_from_bytes (take 2 (device e (reads w + 3) [0x14])) False))
                 (PyInt 1)\<rparr>,
      \<lparr>timestamp = today e (reads w + 4), sensor_id = ''TH2'', unit = ''ADC value'',
       value = py_mul (PyInt (int_from_bytes (take 2 (device e (reads w + 4) [0x15])) False))
                 (PyInt 1)\<rparr>] \<and>
   written (new_events w (snd (get_new_sensor_values save e w))) =
     [[0x10], [0x11], [0x12], [0x14], [0x15]] \<and>
   read_sizes (new_events w (snd (get_new_sensor_values save e w))) = [2, 2, 4, 2, 2]"
proof (intro conjI)
  show "map snd (fst (get_new_sensor_values save e w)) =
     [\<lparr>timestamp = today e (reads w), sensor_id = ''TC1'', unit = ''T'',
       value = py_mul (PyInt (int_from_bytes (take 2 (device e (reads w) [0x10])) True))
                 (float_literal (1 / 10))\<rparr>,
      \<lparr>timestamp = today e (reads w + 1), sensor_id = ''TC2'', unit = ''T'',
       value = py_mul (PyInt (int_from_bytes (take 2 (device e (reads w + 1) [0x11])) True))
                 (float_literal (1 / 10))\<rparr>,
      \<lparr>timestamp = today e (reads w + 2), sensor_id = ''VDD'', unit = ''uV'',
       value = py_mul (PyInt (int_from_bytes (take 4 (device e (reads w + 2) [0x12])) True))
                 (PyInt 1)\<rparr>,
      \<lparr>timestamp = today e (reads w + 3), sensor_id = ''TH1'', unit = ''ADC value'',
       value = py_mul (PyInt (int_from_bytes (take 2 (device e (reads w + 3) [0x14])) False))
                 (PyInt 1)\<rparr>,
      \<lparr>timestamp = today e (reads w + 4), sensor_id = ''TH2'', unit = ''ADC value'',
       value = py_mul (PyInt (int_from_bytes (take 2 (device e (reads w + 4) [0x15])) False))
                 (PyInt 1)\<rparr>]"
    by (simp add: get_new_sensor_values_eq cycle_rows_def communication_specs_def sensor_row_def
        convert_def eval_nat_numeral)
  show "written (new_events w (snd (get_new_sensor_values save e w))) =
     [[0x10], [0x11], [0x12], [0x14], [0x15]]"
    by (simp add: get_new_sensor_values_eq new_events_def cycle_events_def communication_specs_def)
  show "read_sizes (new_events w (snd (get_new_sensor_values save e w))) = [2, 2, 4, 2, 2]"
    by (simp add: get_new_sensor_values_eq new_events_def cycle_events_def communication_specs_def)
qed

lemma unsigned_times_one: "py_mul (PyInt (int_from_bytes bs False)) (PyInt 1) = PyInt (le_unsigned bs)"
  by (simp add: py_mul_def int_from_bytes_def)

lemma cold_tc: "py_mul (PyInt (int_from_bytes (take 2 [0xFF, 0xFF, 0xFF, 0xFF]) True)) (float_literal (1 / 10)) =
    PyFloat (- (3602879701896397 / 36028797018963968))"
  by code_simp

lemma cold_vdd: "py_mul (PyInt (int_from_bytes (take 4 [0xFF, 0xFF, 0xFF, 0xFF]) True)) (PyInt 1) = PyInt (- 1)"
  by code_simp

text \<open>
  C10. Whatever the device answers, the readings of TH1 and TH2 are nonnegative integers
  (unsigned decoding, scale 1); TC1, TC2 and VDD are decoded as two's complement and can
  be negative, as they are when every answered byte is 0xFF.
\<close>

theorem unsigned_readings_nonnegative:
  "(\<exists>u. snd (fst (get_new_sensor_values save e w) ! 3) =
           \<lparr>timestamp = today e (reads w + 3), sensor_id = ''TH1'', unit = ''ADC value'',
            value = PyInt u\<rparr> \<and> 0 \<le> u) \<and>
   (\<exists>u. snd (fst (get_new_sensor_values save e w) ! 4) =
           \<lparr>timestamp = today e (reads w + 4), sensor_id = ''TH2'', unit = ''ADC value'',
            value = PyInt u\<rparr> \<and> 0 \<le> u) \<and>
   map (\<lambda>p. (sensor_id (snd p), pynum_val (value (snd p)) < 0))
       (take 3 (fst (get_new_sensor_values save cold_device empty_world))) =
     [(''TC1'', True), (''TC2'', True), (''VDD'', True)]"
proof (intro conjI)
  show "\<exists>u. snd (fst (get_new_sensor_values save e w) ! 3) =
           \<lparr>timestamp = today e (reads w + 3), sensor_id = ''TH1'', unit = ''ADC value'',
            value = PyInt u\<rparr> \<and> 0 \<le> u"
    using collected_row [of 3 "''TH1''" "[0x14]" 2 "PyInt 1" "''ADC value''" False save e w]
    by (simp add: communication_specs_def convert_def unsigned_times_one le_unsigned_nonneg)
  show "\<exists>u. snd (fst (get_new_sensor_values save e w) ! 4) =
           \<lparr>timestamp = today e (reads w + 4), sensor_id = ''TH2'', unit = ''ADC value'',
            value = PyInt u\<rparr> \<and> 0 \<le> u"
    using collected_row [of 4 "''TH2''" "[0x15]" 2 "PyInt 1" "''ADC value''" False save e w]
    by (simp add: communication_specs_def convert_def unsigned_times_one le_unsigned_nonneg)
  show "map (\<lambda>p. (sensor_id (snd p), pynum_val (value (snd p)) < 0))
       (take 3 (fst (get_new_sensor_values save cold_device empty_world))) =
     [(''TC1'', True), (''TC2'', True), (''VDD'', True)]"
    using cold_tc cold_vdd
    by (simp add: get_new_sensor_values_eq cycle_rows_def communication_specs_def sensor_row_def
        convert_def cold_device_def pynum_val_def)
qed


subsection \<open>Start-up and the animation loop\<close>

lemma device_id_response_emit [simp]:
  "device_id_response e (emit ev w) = device_id_response e w"
  by (simp add: device_id_response_def emit_def)

lemma buffer_ok_enumerate: "rs \<noteq> [] \<Longrightarrow> buffer_ok (enumerate 0 rs)"
  by (simp add: buffer_ok_def enumerate_eq_zip sorted_wrt_upt flip: length_greater_0_conv)

lemma cycle_rows_nonempty: "cycle_rows e k \<noteq> []"
  using length_cycle_rows [of e k] by auto

lemma map_DataLine_enumerate: "map (DataLine \<circ> snd) (enumerate n xs) = map DataLine xs"
  by (simp add: map_snd_enumerate flip: map_map)

lemma reads_get_new_sensor_values: "reads (snd (get_new_sensor_values s e w)) = reads w + 5"
  by (simp add: get_new_sensor_values_eq)

lemma startup_unfold:
  "startup cfg e w =
     (let w' = (if list_all_windows_ports cfg then emit ListPorts w else w)
      in case check_connection e w' of
           (Inl err, w2) \<Rightarrow> (Inl err, w2)
         | (Inr u, w2) \<Rightarrow>
             (Inr (fst (get_new_sensor_values False e w2)),
              if save_to_csv cfg
              then to_csv_write (fst (get_new_sensor_values False e w2))
                     (snd (get_new_sensor_values False e w2))
              else snd (get_new_sensor_values False e w2)))"
  by (simp add: startup_def Let_def case_prod_beta split: sum.splits)

lemma ports_listed:
  "device_id_response e (if b then emit ListPorts w else w) = device_id_response e w"
  "reads (if b then emit ListPorts w else w) = reads w"
  "csv (if b then emit ListPorts w else w) = csv w"
  "trace (if b then emit ListPorts w else w) = trace w @ (if b then [ListPorts] else [])"
  by (simp_all add: emit_def device_id_response_def)

lemma startup_fail:
  assumes "device_id_response e w \<noteq> [0x0d, 0xee]"
  shows "fst (startup cfg e w) = Inl AssertionError"
    and "written (new_events w (snd (startup cfg e w))) = [[0x00], [0x01]]"
    and "reads (snd (startup cfg e w)) = reads w + 2"
    and "csv (snd (startup cfg e w)) = csv w"
proof -
  let ?w = "if list_all_windows_ports cfg then emit ListPorts w else w"
  have "device_id_response e ?w \<noteq> [0x0d, 0xee]"
    unfolding ports_listed(1) by (rule assms)
  note c = check_connection_fail [OF this]
  show "fst (startup cfg e w) = Inl AssertionError"
    by (simp only: startup_unfold Let_def c) simp
  show "written (new_events w (snd (startup cfg e w))) = [[0x00], [0x01]]"
    by (simp only: startup_unfold Let_def c) (simp add: new_events_def ports_listed)
  show "reads (snd (startup cfg e w)) = reads w + 2"
    by (simp only: startup_unfold Let_def c) (simp add: ports_listed)
  show "csv (snd (startup cfg e w)) = csv w"
    by (simp only: startup_unfold Let_def c) (simp add: ports_listed)
qed

lemma startup_pass:
  assumes "device_id_response e w = [0x0d, 0xee]"
  shows "fst (startup cfg e w) = Inr (enumerate 0 (cycle_rows e (reads w + 4)))"
    and "csv (snd (startup cfg e w)) =
           (if save_to_csv cfg then Some (header # map DataLine (cycle_rows e (reads w + 4)))
            else csv w)"
    and "reads (snd (startup cfg e w)) = reads w + 9"
proof -
  let ?w = "if list_all_windows_ports cfg then emit ListPorts w else w"
  have "device_id_response e ?w = [0x0d, 0xee]"
    unfolding ports_listed(1) by (rule assms)
  note c = check_connection_pass [OF this]
  show "fst (startup cfg e w) = Inr (enumerate 0 (cycle_rows e (reads w + 4)))"
    by (simp only: startup_unfold Let_def c)
      (simp add: get_new_sensor_values_eq ports_listed)
  show "csv (snd (startup cfg e w)) =
           (if save_to_csv cfg then Some (header # map DataLine (cycle_rows e (reads w + 4)))
            else csv w)"
    by (simp only: startup_unfold Let_def c)
      (simp add: get_new_sensor_values_eq to_csv_write_def ports_listed map_DataLine_enumerate)
  show "reads (snd (startup cfg e w)) = reads w + 9"
    by (simp only: startup_unfold Let_def c)
      (simp add: get_new_sensor_values_eq to_csv_write_def ports_listed)
qed

lemma startup_Inr:
  assumes "startup cfg e w = (Inr df0, w1)"
  shows "device_id_response e w = [0x0d, 0xee]"
proof (rule ccontr)
  assume "device_id_response e w \<noteq> [0x0d, 0xee]"
  from startup_fail(1) [OF this, of cfg] assms show False by simp
qed

lemma animation_update_ok:
  assumes "buffer_ok df"
  shows "\<exists>df'. animation_update cfg e df w =
                 (Inr df', snd (get_new_sensor_values (save_to_csv cfg) e w)) \<and>
               buffer_ok df' \<and>
               map snd df' =
                 (if max_length cfg < length df + 5
                  then drop 5 (map snd df @ cycle_rows e (reads w))
                  else map snd df @ cycle_rows e (reads w))"
proof -
  let ?new = "enumerate 0 (cycle_rows e (reads w))"
  from ingest_ok [OF assms, of "max_length cfg" ?new] obtain df' where
    "ingest (max_length cfg) df ?new = Inr df'" "buffer_ok df'"
    "map snd df' = (if max_length cfg < length df + length ?new
                    then drop (length ?new) (map snd df @ map snd ?new)
                    else map snd df @ map snd ?new)"
    by blast
  then show ?thesis
    by (simp add: animation_update_def get_new_sensor_values_eq length_cycle_rows
        map_snd_enumerate)
qed

lemma animate_ok:
  assumes "buffer_ok df"
  shows "\<exists>df' w'. animate cfg e n df w = (Inr df', w') \<and> buffer_ok df' \<and>
           set (map snd df') \<subseteq> set (map snd df) \<union> set (collected e (reads w) n) \<and>
           csv_lines w' =
             csv_lines w @ (if save_to_csv cfg then map DataLine (collected e (reads w) n) else []) \<and>
           (length df \<le> max_length cfg \<longrightarrow> length df' \<le> max_length cfg)"
  using assms
proof (induction n arbitrary: df w)
  case 0
  then show ?case by simp
next
  case (Suc n)
  let ?w1 = "snd (get_new_sensor_values (save_to_csv cfg) e w)"
  from animation_update_ok [OF Suc.prems, of cfg e w] obtain df1 where
    u: "animation_update cfg e df w = (Inr df1, ?w1)" "buffer_ok df1"
       "map snd df1 = (if max_length cfg < length df + 5
                       then drop 5 (map snd df @ cycle_rows e (reads w))
                       else map snd df @ cycle_rows e (reads w))"
    by blast
  have w1: "reads ?w1 = reads w + 5"
    "csv_lines ?w1 =
       csv_lines w @ (if save_to_csv cfg then map DataLine (cycle_rows e (reads w)) else [])"
    by (simp_all add: get_new_sensor_values_eq csv_lines_def)
  have sub1: "set (map snd df1) \<subseteq> set (map snd df) \<union> set (cycle_rows e (reads w))"
    using u(3) set_drop_subset [of 5 "map snd df @ cycle_rows e (reads w)"]
    by (auto split: if_splits)
  have "length (map snd df1) =
          (if max_length cfg < length df + 5 then length df else length df + 5)"
    by (simp add: u(3) length_cycle_rows del: drop_append)
  then have len1: "length df \<le> max_length cfg \<longrightarrow> length df1 \<le> max_length cfg"
    by (auto split: if_splits)
  from Suc.IH [OF u(2), of ?w1] obtain df' w' where
    r: "animate cfg e n df1 ?w1 = (Inr df', w')" "buffer_ok df'"
       "set (map snd df') \<subseteq> set (map snd df1) \<union> set (collected e (reads ?w1) n)"
       "csv_lines w' =
          csv_lines ?w1 @ (if save_to_csv cfg then map DataLine (collected e (reads ?w1) n) else [])"
       "length df1 \<le> max_length cfg \<longrightarrow> length df' \<le> max_length cfg"
    by blast
  have "animate cfg e (Suc n) df w = (Inr df', w')"
    using u(1) r(1) by simp
  moreover have "set (map snd df') \<subseteq> set (map snd df) \<union> set (collected e (reads w) (Suc n))"
    using r(3) sub1 by (auto simp: reads_get_new_sensor_values)
  moreover have "csv_lines w' =
      csv_lines w @ (if save_to_csv cfg then map DataLine (collected e (reads w) (Suc n)) else [])"
    using r(4) by (simp add: w1(2) reads_get_new_sensor_values)
  ultimately show ?case
    using r(2) r(5) len1 by blast
qed

lemma startup_buffer:
  assumes "startup cfg e w = (Inr df0, w1)"
  shows "df0 = enumerate 0 (cycle_rows e (reads w + 4))" "buffer_ok df0" "length df0 = 5"
proof -
  from startup_pass(1) [OF startup_Inr [OF assms], of cfg] assms
  show "df0 = enumerate 0 (cycle_rows e (reads w + 4))" by simp
  then show "buffer_ok df0" "length df0 = 5"
    by (simp_all add: buffer_ok_enumerate cycle_rows_nonempty length_cycle_rows)
qed

subsection \<open>Buffer, handshake\<close>

text \<open>
  C2. Every ingest of a batch into the buffer appends the batch in its order; when the
  size after the append exceeds \<open>max_length\<close>, exactly the \<open>len(batch)\<close> oldest rows
  are dropped and no others; and the buffer then holds at most \<open>max_length\<close> rows. The
  buffers meant are those the program builds: non-empty, labels increasing, at most
  \<open>max_length\<close> rows; the start-up batch is one and each ingest yields one again.
\<close>

theorem ingest_appends_and_evicts:
  "(buffer_ok df \<and> length df \<le> cap \<longrightarrow>
      (\<exists>df'. ingest cap df batch = Inr df' \<and>
             map snd df' =
               (if cap < length df + length batch
                then drop (length batch) (map snd df @ map snd batch)
                else map snd df @ map snd batch) \<and>
             length df' \<le> cap \<and> buffer_ok df')) \<and>
   (startup default_config e w = (Inr df0, w1) \<longrightarrow>
      (\<exists>df' w'. animate default_config e n df0 w1 = (Inr df', w') \<and>
         buffer_ok df' \<and> length df' \<le> max_length default_config)) \<and>
   fst (animation_update cfg e df w) =
     ingest (max_length cfg) df (fst (get_new_sensor_values (save_to_csv cfg) e w))"
proof (intro conjI impI)
  assume a: "buffer_ok df \<and> length df \<le> cap"
  from ingest_ok [of df cap batch] a obtain df' where
    d: "ingest cap df batch = Inr df'" "buffer_ok df'"
       "map snd df' =
          (if cap < length df + length batch
           then drop (length batch) (map snd df @ map snd batch)
           else map snd df @ map snd batch)"
    by blast
  have "length (map snd df') =
          (if cap < length df + length batch then length df else length df + length batch)"
    by (simp add: d(3) del: drop_append)
  then have "length df' \<le> cap"
    using a by (simp split: if_splits)
  with d show "\<exists>df'. ingest cap df batch = Inr df' \<and>
             map snd df' =
               (if cap < length df + length batch
                then drop (length batch) (map snd df @ map snd batch)
                else map snd df @ map snd batch) \<and>
             length df' \<le> cap \<and> buffer_ok df'"
    by simp
next
  assume st: "startup default_config e w = (Inr df0, w1)"
  from startup_buffer(2,3) [OF st]
  have b: "buffer_ok df0" and l: "length df0 \<le> max_length default_config"
    by (simp_all add: default_config_def)
  from animate_ok [OF b, of default_config e n w1] l
  show "\<exists>df' w'. animate default_config e n df0 w1 = (Inr df', w') \<and>
         buffer_ok df' \<and> length df' \<le> max_length default_config"
    by blast
next
  show "fst (animation_update cfg e df w) =
     ingest (max_length cfg) df (fst (get_new_sensor_values (save_to_csv cfg) e w))"
    by (simp add: animation_update_def case_prod_beta)
qed

lemma kth_device_id: "device_id_response kth_device empty_world = [0x0d, 0xee]"
  by (simp add: device_id_response_def probe_def kth_device_def)

lemma kth_startup:
  "startup default_config kth_device empty_world =
     (Inr (enumerate 0 (cycle_rows kth_device 4)),
      snd (startup default_config kth_device empty_world))"
proof -
  have "fst (startup default_config kth_device empty_world) =
      Inr (enumerate 0 (cycle_rows kth_device 4))"
    using startup_pass(1) [OF kth_device_id, of default_config] by (simp add: empty_world_def)
  then show ?thesis by (metis prod.collapse)
qed

lemma other_device_id: "device_id_response other_device empty_world \<noteq> [0x0d, 0xee]"
  by (simp add: device_id_response_def probe_def other_device_def)

theorem ingest_appends_and_evicts_witness:
  "buffer_ok three_rows \<and> length three_rows \<le> 3 \<and>
   (\<exists>df'. ingest 3 three_rows [(0, sample_row 3)] = Inr df' \<and>
          map snd df' = [sample_row 1, sample_row 2, sample_row 3] \<and>
          length df' \<le> 3 \<and> buffer_ok df') \<and>
   startup default_config kth_device empty_world =
     (Inr (enumerate 0 (cycle_rows kth_device 4)),
      snd (startup default_config kth_device empty_world)) \<and>
   (\<exists>df' w'. animate default_config kth_device 2 (enumerate 0 (cycle_rows kth_device 4))
                (snd (startup default_config kth_device empty_world)) = (Inr df', w') \<and>
         buffer_ok df' \<and> length df' \<le> max_length default_config)"
proof -
  have h: "buffer_ok three_rows \<and> length three_rows \<le> 3"
    by (simp add: buffer_ok_def three_rows_def)
  from ingest_appends_and_evicts
      [of three_rows 3 "[(0, sample_row 3)]" kth_device empty_world
          "enumerate 0 (cycle_rows kth_device 4)"
          "snd (startup default_config kth_device empty_world)" 2] h kth_startup
  show ?thesis
    by (simp add: three_rows_def del: animate.simps)
qed

text \<open>
  C9. The per-row append labels the new row one past the largest label of the buffer,
  which needs a row to be there: on an empty buffer the model stops. The main program
  collects one batch before the timer starts, so once the handshake has passed, the
  buffer is non-empty before every tick, every tick completes, and each new row goes to
  the end under a label not used before.
\<close>

theorem ingest_runs_on_nonempty_buffer:
  "(startup cfg e w0 = (Inr df0, w1) \<longrightarrow>
      (\<exists>df w m. animate cfg e n df0 w1 = (Inr df, w) \<and> df \<noteq> [] \<and>
         df_index_max df = Some m \<and> (\<forall>r. df_loc_set df (m + 1) r = df @ [(m + 1, r)]))) \<and>
   df_index_max [] = None \<and>
   ingest cap [] (x # batch) = Inl NaNLabel"
proof (intro conjI impI)
  assume "startup cfg e w0 = (Inr df0, w1)"
  from startup_buffer(2) [OF this] have "buffer_ok df0" .
  from animate_ok [OF this, of cfg e n w1] obtain df w where
    a: "animate cfg e n df0 w1 = (Inr df, w)" "buffer_ok df"
    by blast
  then have ne: "df \<noteq> []" and so: "sorted_wrt (<) (map fst df)"
    by (simp_all add: buffer_ok_def)
  from index_max_last [OF ne so] loc_set_fresh(1) [OF ne so] a(1) ne
  show "\<exists>df w m. animate cfg e n df0 w1 = (Inr df, w) \<and> df \<noteq> [] \<and>
         df_index_max df = Some m \<and> (\<forall>r. df_loc_set df (m + 1) r = df @ [(m + 1, r)])"
    by simp
next
  show "df_index_max [] = None" by (simp add: df_index_max_def)
  show "ingest cap [] (x # batch) = Inl NaNLabel"
    by (cases x) (simp add: ingest_def df_index_max_def)
qed

theorem ingest_runs_on_nonempty_buffer_witness:
  "\<exists>df0 w1. startup default_config kth_device empty_world = (Inr df0, w1) \<and>
     (\<exists>df w m. animate default_config kth_device 2 df0 w1 = (Inr df, w) \<and> df \<noteq> [] \<and>
         df_index_max df = Some m \<and> (\<forall>r. df_loc_set df (m + 1) r = df @ [(m + 1, r)]))"
proof -
  from ingest_runs_on_nonempty_buffer
      [of default_config kth_device empty_world "enumerate 0 (cycle_rows kth_device 4)"
          "snd (startup default_config kth_device empty_world)" 2] kth_startup
  show ?thesis by blast
qed

lemma main_fail:
  assumes "device_id_response e w \<noteq> [0x0d, 0xee]"
  shows "main cfg e n w = startup cfg e w"
proof -
  obtain r w' where s: "startup cfg e w = (r, w')" by (cases "startup cfg e w")
  with startup_fail(1) [OF assms, of cfg] have "r = Inl AssertionError" by simp
  with s show ?thesis by (simp add: main_def)
qed

text \<open>
  C3. The handshake fails its assertion exactly when the bytes read after command 0x01
  are not the two bytes 0x0D 0xEE. On a mismatch the program stops there: only the
  commands 0x00 and 0x01 were written, two reads were made, no sensor was read and the
  file is untouched. On a match the handshake completes.
\<close>

theorem handshake_asserts_device_id:
  "(fst (check_connection e w) = Inl AssertionError \<longleftrightarrow>
      device_id_response e w \<noteq> [0x0d, 0xee]) \<and>
   (device_id_response e w = [0x0d, 0xee] \<longrightarrow> fst (check_connection e w) = Inr ()) \<and>
   (device_id_response e w \<noteq> [0x0d, 0xee] \<longrightarrow>
      fst (main cfg e n w) = Inl AssertionError \<and>
      written (new_events w (snd (main cfg e n w))) = [[0x00], [0x01]] \<and>
      reads (snd (main cfg e n w)) = reads w + 2 \<and>
      csv (snd (main cfg e n w)) = csv w)"
proof (cases "device_id_response e w = [0x0d, 0xee]")
  case True
  then show ?thesis by (simp add: check_connection_pass)
next
  case False
  then show ?thesis
    using startup_fail [OF False, of cfg]
    by (simp add: check_connection_fail main_fail)
qed

theorem handshake_asserts_device_id_witness:
  "device_id_response other_device empty_world \<noteq> [0x0d, 0xee] \<and>
   fst (check_connection other_device empty_world) = Inl AssertionError \<and>
   fst (main default_config other_device 3 empty_world) = Inl AssertionError \<and>
   written (new_events empty_world (snd (main default_config other_device 3 empty_world))) =
     [[0x00], [0x01]] \<and>
   reads (snd (main default_config other_device 3 empty_world)) = 2 \<and>
   device_id_response kth_device empty_world = [0x0d, 0xee] \<and>
   fst (check_connection kth_device empty_world) = Inr () \<and>
   fst (check_connection kth_device empty_world) \<noteq> Inl AssertionError"
  using handshake_asserts_device_id [of other_device empty_world default_config 3]
    handshake_asserts_device_id [of kth_device empty_world default_config 3]
    kth_device_id other_device_id
  by (simp add: empty_world_def)

subsection \<open>Connections and the log file\<close>

lemma fresh_is_satisfiable:
  "fresh_connection_per_write True
     [Open kth_settings, Write [0x00], Flush, Read 100 [], Close,
      Open kth_settings, Write [0x01], Flush, Read 100 [], Close]"
  by simp

text \<open>
  The four probes do not have a connection each, nor do the five sensor commands: on the
  thermometer, the traces of a handshake and of a collection cycle both contain a write on
  a connection already written to.
\<close>

theorem probes_share_one_connection:
  "\<not> fresh_connection_per_write True (trace (snd (check_connection kth_device empty_world))) \<and>
   \<not> fresh_connection_per_write True
        (trace (snd (get_new_sensor_values False kth_device empty_world)))"
  by (simp only: check_connection_pass [OF kth_device_id] get_new_sensor_values_eq)
    (simp add: cycle_events_def communication_specs_def empty_world_def)

text \<open>
  C5, as the code has it. A handshake opens one connection, sends all its probes over it
  (four, or two when the device id is wrong) and closes it; a collection cycle opens one
  connection, sends the five sensor commands over it and closes it. Each handshake and
  each cycle has a connection of its own.
\<close>

theorem one_connection_per_handshake_and_cycle:
  "connections (new_events w (snd (check_connection e w))) = [Open kth_settings, Close] \<and>
   hd (new_events w (snd (check_connection e w))) = Open kth_settings \<and>
   last (new_events w (snd (check_connection e w))) = Close \<and>
   written (new_events w (snd (check_connection e w))) =
     (if device_id_response e w = [0x0d, 0xee] then [[0x00], [0x01], [0x02], [0x03]]
      else [[0x00], [0x01]]) \<and>
   connections (new_events w (snd (get_new_sensor_values save e w))) =
     [Open kth_settings, Close] \<and>
   hd (new_events w (snd (get_new_sensor_values save e w))) = Open kth_settings \<and>
   last (new_events w (snd (get_new_sensor_values save e w))) = Close \<and>
   written (new_events w (snd (get_new_sensor_values save e w))) =
     [[0x10], [0x11], [0x12], [0x14], [0x15]]"
proof -
  have c: "connections (new_events w (snd (check_connection e w))) = [Open kth_settings, Close] \<and>
   hd (new_events w (snd (check_connection e w))) = Open kth_settings \<and>
   last (new_events w (snd (check_connection e w))) = Close \<and>
   written (new_events w (snd (check_connection e w))) =
     (if device_id_response e w = [0x0d, 0xee] then [[0x00], [0x01], [0x02], [0x03]]
      else [[0x00], [0x01]])"
  proof (cases "device_id_response e w = [0x0d, 0xee]")
    case True
    then show ?thesis by (simp add: check_connection_pass new_events_def)
  next
    case False
    then show ?thesis by (simp add: check_connection_fail new_events_def)
  qed
  have g: "connections (new_events w (snd (get_new_sensor_values save e w))) =
     [Open kth_settings, Close] \<and>
   hd (new_events w (snd (get_new_sensor_values save e w))) = Open kth_settings \<and>
   last (new_events w (snd (get_new_sensor_values save e w))) = Close \<and>
   written (new_events w (snd (get_new_sensor_values save e w))) =
     [[0x10], [0x11], [0x12], [0x14], [0x15]]"
    by (simp add: get_new_sensor_values_eq new_events_def cycle_events_def communication_specs_def)
  from c g show ?thesis by simp
qed

lemma collected_snoc: "collected e k (Suc n) = collected e k n @ cycle_rows e (k + 5 * n)"
proof (induction n arbitrary: k)
  case 0
  show ?case by simp
next
  case (Suc n)
  have "collected e k (Suc (Suc n)) = cycle_rows e k @ collected e (k + 5) (Suc n)"
    by simp
  also have "\<dots> = cycle_rows e k @ collected e (k + 5) n @ cycle_rows e (k + 5 + 5 * n)"
    by (simp only: Suc.IH)
  finally show ?case by (simp add: add.assoc)
qed

lemma startup_csv:
  assumes "save_to_csv cfg" "startup cfg e w0 = (Inr df0, w1)"
  shows "csv_lines w1 = header # map (DataLine \<circ> snd) df0"
proof -
  note ok = startup_Inr [OF assms(2)]
  from startup_pass(2) [OF ok, of cfg] assms
  have "csv w1 = Some (header # map DataLine (cycle_rows e (reads w0 + 4)))" by simp
  then show ?thesis
    by (simp add: csv_lines_def startup_buffer(1) [OF assms(2)] map_DataLine_enumerate)
qed

lemma animate_csv:
  assumes "buffer_ok df" "save_to_csv cfg"
  shows "csv_lines (snd (animate cfg e n df w)) = csv_lines w @ map DataLine (collected e (reads w) n)"
  using animate_ok [OF assms(1), of cfg e n w] assms(2) by auto

text \<open>
  C6, as the code has it. With persistence enabled, start-up leaves the file holding the
  header row followed by the first batch, whatever the file held before; every collection
  cycle after it appends its five records and no header, leaving the lines already there
  unchanged. After any number of ticks the file of the run is the header, then the records
  collected in the run, in order. A cycle without persistence leaves the file alone.
\<close>

theorem log_append_only_within_run:
  "(save_to_csv cfg \<and> startup cfg e w0 = (Inr df0, w1) \<longrightarrow>
      csv_lines w1 = header # map (DataLine \<circ> snd) df0 \<and>
      csv_lines (snd (animate cfg e n df0 w1)) =
        header # map (DataLine \<circ> snd) df0 @ map DataLine (collected e (reads w1) n) \<and>
      csv_lines (snd (animate cfg e (Suc n) df0 w1)) =
        csv_lines (snd (animate cfg e n df0 w1)) @ map DataLine (cycle_rows e (reads w1 + 5 * n))) \<and>
   csv_lines (snd (get_new_sensor_values True e w)) =
     csv_lines w @ map (DataLine \<circ> snd) (fst (get_new_sensor_values True e w)) \<and>
   csv (snd (get_new_sensor_values False e w)) = csv w"
proof -
  have run: "csv_lines w1 = header # map (DataLine \<circ> snd) df0 \<and>
      csv_lines (snd (animate cfg e n df0 w1)) =
        header # map (DataLine \<circ> snd) df0 @ map DataLine (collected e (reads w1) n) \<and>
      csv_lines (snd (animate cfg e (Suc n) df0 w1)) =
        csv_lines (snd (animate cfg e n df0 w1)) @ map DataLine (cycle_rows e (reads w1 + 5 * n))"
    if a: "save_to_csv cfg" "startup cfg e w0 = (Inr df0, w1)"
  proof -
    note b = startup_buffer(2) [OF a(2)]
    show ?thesis
      by (simp only: animate_csv [OF b a(1)] startup_csv [OF a] collected_snoc) simp
  qed
  have cyc: "csv_lines (snd (get_new_sensor_values True e w)) =
     csv_lines w @ map (DataLine \<circ> snd) (fst (get_new_sensor_values True e w))"
    by (simp add: get_new_sensor_values_eq csv_lines_def map_DataLine_enumerate)
  have off: "csv (snd (get_new_sensor_values False e w)) = csv w"
    by (simp add: get_new_sensor_values_eq)
  from run cyc off show ?thesis by blast
qed


lemma animate_reads:
  assumes "buffer_ok df"
  shows "reads (snd (animate cfg e n df w)) = reads w + 5 * n"
  using assms
proof (induction n arbitrary: df w)
  case 0
  show ?case by simp
next
  case (Suc n)
  from animation_update_ok [OF Suc.prems, of cfg e w] obtain df1 where
    u: "animation_update cfg e df w =
          (Inr df1, snd (get_new_sensor_values (save_to_csv cfg) e w))" "buffer_ok df1"
    by blast
  from Suc.IH [OF u(2), of "snd (get_new_sensor_values (save_to_csv cfg) e w)"] u(1)
  show ?case by (simp add: reads_get_new_sensor_values)
qed

lemma main_pass:
  assumes "device_id_response e w = [0x0d, 0xee]"
  shows "main cfg e n w =
           animate cfg e n (enumerate 0 (cycle_rows e (reads w + 4))) (snd (startup cfg e w))"
proof -
  obtain r w' where s: "startup cfg e w = (r, w')" by (cases "startup cfg e w")
  with startup_pass(1) [OF assms, of cfg] show ?thesis by (simp add: main_def)
qed

lemma main_log:
  assumes "device_id_response e w = [0x0d, 0xee]" "save_to_csv cfg"
  shows "csv_lines (snd (main cfg e n w)) =
           header # map DataLine (cycle_rows e (reads w + 4) @ collected e (reads w + 9) n)"
    and "reads (snd (main cfg e n w)) = reads w + 9 + 5 * n"
proof -
  have b: "buffer_ok (enumerate 0 (cycle_rows e (reads w + 4)))"
    by (simp add: buffer_ok_enumerate cycle_rows_nonempty)
  have c: "csv_lines (snd (startup cfg e w)) = header # map DataLine (cycle_rows e (reads w + 4))"
    using startup_pass(2) [OF assms(1), of cfg] assms(2) by (simp add: csv_lines_def)
  show "csv_lines (snd (main cfg e n w)) =
           header # map DataLine (cycle_rows e (reads w + 4) @ collected e (reads w + 9) n)"
    by (simp add: main_pass [OF assms(1)] animate_csv [OF b assms(2)] c
        startup_pass(3) [OF assms(1)])
  show "reads (snd (main cfg e n w)) = reads w + 9 + 5 * n"
    by (simp add: main_pass [OF assms(1)] animate_reads [OF b] startup_pass(3) [OF assms(1)])
qed

lemma kth_device_id_any: "device_id_response kth_device w = [0x0d, 0xee]"
  by (simp add: device_id_response_def probe_def kth_device_def)

lemma cycle_rows_timestamps:
  "map timestamp (cycle_rows e k) =
     [today e k, today e (k + 1), today e (k + 2), today e (k + 3), today e (k + 4)]"
  by (simp add: cycle_rows_def communication_specs_def sensor_row_def eval_nat_numeral)

lemma first_run_log:
  "csv_lines first_run = header # map DataLine (cycle_rows kth_device 4 @ cycle_rows kth_device 9)"
  "reads first_run = 14"
  using main_log [where e = kth_device and w = empty_world and cfg = default_config and n = 1,
      OF kth_device_id_any]
  by (simp_all add: first_run_def default_config_def empty_world_def)

lemma second_run_log:
  "csv_lines second_run = header # map DataLine (cycle_rows kth_device 18 @ cycle_rows kth_device 23)"
  using main_log(1) [where e = kth_device and w = first_run and cfg = default_config and n = 1,
      OF kth_device_id_any]
  by (simp add: second_run_def default_config_def first_run_log(2))

lemma first_row_logged:
  "\<lparr>timestamp = 1004, sensor_id = ''TC1'', unit = ''T'', value = PyFloat 1\<rparr>
     \<in> set (cycle_rows kth_device 4)"
proof -
  have "cycle_rows kth_device 4 ! 0 =
      \<lparr>timestamp = 1004, sensor_id = ''TC1'', unit = ''T'', value = PyFloat 1\<rparr>"
    using tc1_example
    by (simp add: cycle_rows_def communication_specs_def sensor_row_def kth_device_def)
  moreover have "0 < length (cycle_rows kth_device 4)"
    by (simp add: length_cycle_rows)
  ultimately show ?thesis by (metis nth_mem)
qed

lemma first_row_not_in_second:
  "\<lparr>timestamp = 1004, sensor_id = ''TC1'', unit = ''T'', value = PyFloat 1\<rparr>
     \<notin> set (cycle_rows kth_device 18 @ cycle_rows kth_device 23)"
proof
  assume "\<lparr>timestamp = 1004, sensor_id = ''TC1'', unit = ''T'', value = PyFloat 1\<rparr>
     \<in> set (cycle_rows kth_device 18 @ cycle_rows kth_device 23)"
  then have "timestamp \<lparr>timestamp = 1004, sensor_id = ''TC1'', unit = ''T'', value = PyFloat 1\<rparr>
     \<in> set (map timestamp (cycle_rows kth_device 18 @ cycle_rows kth_device 23))"
    by (simp only: set_map) (rule imageI)
  then show False
    by (simp add: cycle_rows_timestamps kth_device_def)
qed

text \<open>
  The log does not grow across runs: a record the first run wrote is gone after the
  second run, whose file does not start with the first run's lines.
\<close>

theorem log_truncated_by_next_run:
  "DataLine \<lparr>timestamp = 1004, sensor_id = ''TC1'', unit = ''T'', value = PyFloat 1\<rparr>
     \<in> set (csv_lines first_run) \<and>
   DataLine \<lparr>timestamp = 1004, sensor_id = ''TC1'', unit = ''T'', value = PyFloat 1\<rparr>
     \<notin> set (csv_lines second_run) \<and>
   take (length (csv_lines first_run)) (csv_lines second_run) \<noteq> csv_lines first_run"
proof -
  let ?r = "\<lparr>timestamp = 1004, sensor_id = ''TC1'', unit = ''T'', value = PyFloat 1\<rparr>"
  have a: "DataLine ?r \<in> set (csv_lines first_run)"
    using first_row_logged by (simp add: first_run_log(1))
  have b: "DataLine ?r \<notin> set (csv_lines second_run)"
    using first_row_not_in_second by (auto simp: second_run_log header_def)
  have "take (length (csv_lines first_run)) (csv_lines second_run) \<noteq> csv_lines first_run"
  proof
    assume "take (length (csv_lines first_run)) (csv_lines second_run) = csv_lines first_run"
    then have "set (csv_lines first_run) \<subseteq> set (csv_lines second_run)"
      by (metis set_take_subset)
    with a b show False by blast
  qed
  with a b show ?thesis by simp
qed

theorem log_append_only_within_run_witness:
  "save_to_csv default_config \<and>
   startup default_config kth_device empty_world =
     (Inr (enumerate 0 (cycle_rows kth_device 4)),
      snd (startup default_config kth_device empty_world)) \<and>
   csv_lines (snd (startup default_config kth_device empty_world)) =
     header # map (DataLine \<circ> snd) (enumerate 0 (cycle_rows kth_device 4)) \<and>
   csv_lines (snd (animate default_config kth_device (Suc 1) (enumerate 0 (cycle_rows kth_device 4))
                     (snd (startup default_config kth_device empty_world)))) =
     csv_lines (snd (animate default_config kth_device 1 (enumerate 0 (cycle_rows kth_device 4))
                       (snd (startup default_config kth_device empty_world)))) @
     map DataLine (cycle_rows kth_device 14)"
proof -
  have s: "save_to_csv default_config" by (simp add: default_config_def)
  have r: "reads (snd (startup default_config kth_device empty_world)) = 9"
    using startup_pass(3) [OF kth_device_id, of default_config] by (simp add: empty_world_def)
  from log_append_only_within_run
      [of default_config kth_device empty_world "enumerate 0 (cycle_rows kth_device 4)"
          "snd (startup default_config kth_device empty_world)" 1]
    s kth_startup
  show ?thesis by (simp add: r del: animate.simps)
qed

text \<open>
  C7. With persistence enabled and the handshake passed: after any number of ticks every
  row of the buffer is a record of the log. In the next tick the collector has appended
  its batch to the log in the world it returns, and the buffer update that follows changes
  nothing in that world.
\<close>

theorem buffer_rows_are_logged:
  "save_to_csv cfg \<and> startup cfg e w0 = (Inr df0, w1) \<longrightarrow>
     (\<exists>df w. animate cfg e n df0 w1 = (Inr df, w) \<and>
        (\<forall>r \<in> set (map snd df). DataLine r \<in> set (csv_lines w)) \<and>
        (\<exists>df'. animation_update cfg e df w =
                 (Inr df', snd (get_new_sensor_values True e w))) \<and>
        (\<forall>r \<in> set (map snd (fst (get_new_sensor_values True e w))).
            DataLine r \<in> set (csv_lines (snd (get_new_sensor_values True e w)))))"
proof
  assume a: "save_to_csv cfg \<and> startup cfg e w0 = (Inr df0, w1)"
  then have save: "save_to_csv cfg" and st: "startup cfg e w0 = (Inr df0, w1)"
    by simp_all
  note b = startup_buffer(2) [OF st]
  from animate_ok [OF b, of cfg e n w1] save obtain df w where
    r: "animate cfg e n df0 w1 = (Inr df, w)" "buffer_ok df"
       "set (map snd df) \<subseteq> set (map snd df0) \<union> set (collected e (reads w1) n)"
       "csv_lines w = csv_lines w1 @ map DataLine (collected e (reads w1) n)"
    by auto
  have log: "csv_lines w =
      header # map DataLine (map snd df0) @ map DataLine (collected e (reads w1) n)"
    by (simp add: r(4) startup_csv [OF save st])
  have "\<forall>r \<in> set (map snd df). DataLine r \<in> set (csv_lines w)"
  proof
    fix x assume "x \<in> set (map snd df)"
    with r(3) have "x \<in> set (map snd df0) \<or> x \<in> set (collected e (reads w1) n)"
      by blast
    then show "DataLine x \<in> set (csv_lines w)"
      by (auto simp: log)
  qed
  moreover from animation_update_ok [OF r(2), of cfg e w] save
  have "\<exists>df'. animation_update cfg e df w = (Inr df', snd (get_new_sensor_values True e w))"
    by auto
  moreover have "\<forall>r \<in> set (map snd (fst (get_new_sensor_values True e w))).
            DataLine r \<in> set (csv_lines (snd (get_new_sensor_values True e w)))"
    by (simp add: get_new_sensor_values_eq csv_lines_def map_snd_enumerate)
  ultimately show "\<exists>df w. animate cfg e n df0 w1 = (Inr df, w) \<and>
        (\<forall>r \<in> set (map snd df). DataLine r \<in> set (csv_lines w)) \<and>
        (\<exists>df'. animation_update cfg e df w =
                 (Inr df', snd (get_new_sensor_values True e w))) \<and>
        (\<forall>r \<in> set (map snd (fst (get_new_sensor_values True e w))).
            DataLine r \<in> set (csv_lines (snd (get_new_sensor_values True e w))))"
    using r(1) by blast
qed

theorem buffer_rows_are_logged_witness:
  "save_to_csv default_config \<and>
   startup default_config kth_device empty_world =
     (Inr (enumerate 0 (cycle_rows kth_device 4)),
      snd (startup default_config kth_device empty_world)) \<and>
   (\<exists>df w. animate default_config kth_device 2 (enumerate 0 (cycle_rows kth_device 4))
              (snd (startup default_config kth_device empty_world)) = (Inr df, w) \<and>
        (\<forall>r \<in> set (map snd df). DataLine r \<in> set (csv_lines w)) \<and>
        (\<exists>df'. animation_update default_config kth_device df w =
                 (Inr df', snd (get_new_sensor_values True kth_device w))) \<and>
        (\<forall>r \<in> set (map snd (fst (get_new_sensor_values True kth_device w))).
            DataLine r \<in> set (csv_lines (snd (get_new_sensor_values True kth_device w)))))"
proof -
  have s: "save_to_csv default_config" by (simp add: default_config_def)
  from buffer_rows_are_logged
      [of default_config kth_device empty_world "enumerate 0 (cycle_rows kth_device 4)"
          "snd (startup default_config kth_device empty_world)" 2]
    s kth_startup
  show ?thesis by blast
qed


end
